theory Spec2Isabelle
  imports
    Complex_Main
    "HOL-Library.AList"
    "HOL-Library.Sublist"
    "HOL-Library.Char_ord"
    "HOL-Library.List_Lexorder"
    "HOL-Library.Multiset"
begin

section \<open>VehicleTrack Cloud: the backend of \<^verbatim>\<open>src/backend/server.js\<close>\<close>

text \<open>
  The development follows the server file from top to bottom: the JavaScript values the
  handlers look at, the object store behind \<^verbatim>\<open>putJSON\<close>/\<^verbatim>\<open>getJSON\<close>, the key layout
  \<^verbatim>\<open>paths\<close>, \<^verbatim>\<open>updatePermission\<close>, the handshake middleware, the three socket handlers
  and the history route.

  Scope of the model. Identifiers that arrive in payloads are JavaScript values; the model
  keeps the three shapes the code can tell apart when a field is a string or is missing
  (\<open>undefined\<close>, \<open>null\<close>, a string). Coordinates are copied, never computed with, and are
  reals. Timestamps are natural numbers (\<^verbatim>\<open>Date.now()\<close> and the digits of a key), compared
  exactly. The S3 bucket is a reliable store: a read fails only because the key is absent,
  a write always succeeds, and nothing else writes between two steps of a handler.
\<close>

subsection \<open>JavaScript values\<close>

datatype jsv = Undefined | Null | Str string

text \<open>Truthiness, as tested by \<^verbatim>\<open>!x\<close> and \<^verbatim>\<open>x || y\<close>.\<close>

fun truthy :: "jsv \<Rightarrow> bool" where
  "truthy Undefined = False"
| "truthy Null = False"
| "truthy (Str s) = (s \<noteq> [])"

text \<open>What a template literal \<^verbatim>\<open>`${x}`\<close> prints.\<close>

fun js_str :: "jsv \<Rightarrow> string" where
  "js_str Undefined = ''undefined''"
| "js_str Null = ''null''"
| "js_str (Str s) = s"

text \<open>
  An element of a stored array. \<^verbatim>\<open>JSON.stringify\<close> writes \<open>undefined\<close> inside an array
  as \<open>null\<close>, so a parsed array never holds \<open>undefined\<close>.
\<close>

datatype jelem = JNull | JStr string

fun to_json :: "jsv \<Rightarrow> jelem" where
  "to_json Undefined = JNull"
| "to_json Null = JNull"
| "to_json (Str s) = JStr s"

text \<open>\<^verbatim>\<open>arr.includes(x)\<close> on a parsed array, and the test \<^verbatim>\<open>e !== x\<close> of the filters.\<close>

fun js_includes :: "jelem list \<Rightarrow> jsv \<Rightarrow> bool" where
  "js_includes xs Undefined = False"
| "js_includes xs Null = (JNull \<in> set xs)"
| "js_includes xs (Str s) = (JStr s \<in> set xs)"

fun strict_neq :: "jsv \<Rightarrow> jelem \<Rightarrow> bool" where
  "strict_neq Undefined e = True"
| "strict_neq Null e = (e \<noteq> JNull)"
| "strict_neq (Str s) e = (e \<noteq> JStr s)"

text \<open>\<^verbatim>\<open>if (!arr.includes(x)) arr.push(x)\<close>, in the form the array is written back.\<close>

definition push_if_absent :: "jelem list \<Rightarrow> jsv \<Rightarrow> jelem list" where
  "push_if_absent xs x = (if \<not> js_includes xs x then xs @ [to_json x] else xs)"

subsection \<open>Documents and the bucket\<close>

record perm_doc =
  pending :: "jelem list"
  accepted :: "jelem list"

record position_report =
  vehicleId :: jsv
  lat :: "real option"
  lng :: "real option"
  speed :: "real option"
  ts :: nat

text \<open>
  Every key built by \<^verbatim>\<open>paths\<close> starts with \<^verbatim>\<open>permissions/\<close> or with \<^verbatim>\<open>vehicles/\<close>, and
  the two families hold documents of different shape; the bucket keeps them as two
  association lists from full object keys to parsed bodies.
\<close>

record bucket =
  perms :: "(string \<times> perm_doc) list"
  positions :: "(string \<times> position_report) list"

definition empty_bucket :: bucket where
  "empty_bucket = \<lparr>perms = [], positions = []\<rparr>"

definition putJSON_perm :: "string \<Rightarrow> perm_doc \<Rightarrow> bucket \<Rightarrow> bucket" where
  "putJSON_perm key d b = b\<lparr>perms := AList.update key d (perms b)\<rparr>"

definition putJSON_pos :: "string \<Rightarrow> position_report \<Rightarrow> bucket \<Rightarrow> bucket" where
  "putJSON_pos key d b = b\<lparr>positions := AList.update key d (positions b)\<rparr>"

text \<open>\<^verbatim>\<open>getJSON(key, fallback)\<close>: the fallback stands for a missing object.\<close>

definition getJSON_perm :: "bucket \<Rightarrow> string \<Rightarrow> 'a \<Rightarrow> (perm_doc \<Rightarrow> 'a) \<Rightarrow> 'a" where
  "getJSON_perm b key fallback view =
     (case map_of (perms b) key of None \<Rightarrow> fallback | Some d \<Rightarrow> view d)"

definition empty_doc :: perm_doc where
  "empty_doc = \<lparr>pending = [], accepted = []\<rparr>"

subsection \<open>Key layout\<close>

definition paths_userPerm :: "jsv \<Rightarrow> string" where
  "paths_userPerm u = ''permissions/user/'' @ js_str u @ ''.json''"

definition paths_vehPerm :: "jsv \<Rightarrow> string" where
  "paths_vehPerm v = ''permissions/vehicle/'' @ js_str v @ ''.json''"

definition paths_current :: "jsv \<Rightarrow> string" where
  "paths_current v = ''vehicles/'' @ js_str v @ ''/current.json''"

subsection \<open>updatePermission\<close>

text \<open>
  Both documents are read first, changed according to \<open>status\<close>, and written back, the
  vehicle's document before the user's. Any other status leaves the two documents as read
  and still writes them. The returned pair \<^verbatim>\<open>{veh, usr}\<close> is used by no caller; the model
  returns the bucket.
\<close>

definition updatePermission :: "jsv \<Rightarrow> jsv \<Rightarrow> string \<Rightarrow> bucket \<Rightarrow> bucket" where
  "updatePermission vid uid status b =
     (let veh = getJSON_perm b (paths_vehPerm vid) empty_doc id;
          usr = getJSON_perm b (paths_userPerm uid) empty_doc id;
          veh' = (if status = ''pending''
                  then veh\<lparr>pending := push_if_absent (pending veh) uid\<rparr>
                  else if status = ''accepted''
                  then veh\<lparr>pending := filter (strict_neq uid) (pending veh),
                           accepted := push_if_absent (accepted veh) uid\<rparr>
                  else veh);
          usr' = (if status = ''pending''
                  then usr\<lparr>pending := push_if_absent (pending usr) vid\<rparr>
                  else if status = ''accepted''
                  then usr\<lparr>pending := filter (strict_neq vid) (pending usr),
                           accepted := push_if_absent (accepted usr) vid\<rparr>
                  else usr)
      in putJSON_perm (paths_userPerm uid) usr'
           (putJSON_perm (paths_vehPerm vid) veh' b))"

text \<open>The two documents of a pair, as the permission routes and the handlers read them.\<close>

definition vehDoc :: "bucket \<Rightarrow> string \<Rightarrow> perm_doc" where
  "vehDoc b v = getJSON_perm b (paths_vehPerm (Str v)) empty_doc id"

definition usrDoc :: "bucket \<Rightarrow> string \<Rightarrow> perm_doc" where
  "usrDoc b u = getJSON_perm b (paths_userPerm (Str u)) empty_doc id"

text \<open>\<open>request\<close> and \<open>grant\<close> of the permission state machine.\<close>

definition request :: "string \<Rightarrow> string \<Rightarrow> bucket \<Rightarrow> bucket" where
  "request v u = updatePermission (Str v) (Str u) ''pending''"

definition grant :: "string \<Rightarrow> string \<Rightarrow> bucket \<Rightarrow> bucket" where
  "grant v u = updatePermission (Str v) (Str u) ''accepted''"

subsection \<open>Decimal numerals and dates in keys\<close>

text \<open>\<^verbatim>\<open>String(n)\<close> for a natural number, and \<^verbatim>\<open>Number(digits)\<close> for a run of digits.\<close>

definition digit_char :: "nat \<Rightarrow> char" where
  "digit_char d = ''0123456789'' ! d"

definition is_digit :: "char \<Rightarrow> bool" where
  "is_digit c = (c \<in> set ''0123456789'')"

definition digit_val :: "char \<Rightarrow> nat" where
  "digit_val c = of_char c - 48"

function show_nat :: "nat \<Rightarrow> string" where
  "show_nat n = (if n < 10 then [digit_char n] else show_nat (n div 10) @ [digit_char (n mod 10)])"
  by pat_completeness auto
termination
  by (relation "measure id") auto

declare show_nat.simps [simp del]

definition number_of_digits :: "string \<Rightarrow> nat" where
  "number_of_digits ds = foldl (\<lambda>acc c. 10 * acc + digit_val c) 0 ds"

text \<open>\<^verbatim>\<open>s.padStart(2, "0")\<close>.\<close>

definition padStart2 :: "string \<Rightarrow> string" where
  "padStart2 s = replicate (2 - length s) CHR ''0'' @ s"

text \<open>
  \<^verbatim>\<open>new Date(ts)\<close> read through \<^verbatim>\<open>getUTCFullYear\<close>, \<^verbatim>\<open>getUTCMonth() + 1\<close> and
  \<^verbatim>\<open>getUTCDate\<close>: the proleptic Gregorian date of the day that holds millisecond \<open>ts\<close> of
  the epoch, computed from the day number by eras of 400 years: the day of the era, the year
  of the era, the day of the year counted from 1 March, the month counted from March, and
  from these the year, month and day.
\<close>

definition civil_ymd :: "nat \<Rightarrow> nat \<Rightarrow> nat \<Rightarrow> nat \<times> nat \<times> nat" where
  "civil_ymd y m d = (if m \<le> 2 then y + 1 else y, m, d)"

definition civil_from_mp :: "nat \<Rightarrow> nat \<Rightarrow> nat \<Rightarrow> nat \<times> nat \<times> nat" where
  "civil_from_mp y doy mp =
     civil_ymd y (if mp < 10 then mp + 3 else mp - 9) (doy - (153 * mp + 2) div 5 + 1)"

definition civil_from_doy :: "nat \<Rightarrow> nat \<Rightarrow> nat \<times> nat \<times> nat" where
  "civil_from_doy y doy = civil_from_mp y doy ((5 * doy + 2) div 153)"

definition civil_from_yoe :: "nat \<Rightarrow> nat \<Rightarrow> nat \<Rightarrow> nat \<times> nat \<times> nat" where
  "civil_from_yoe era doe yoe =
     civil_from_doy (yoe + era * 400) (doe - (365 * yoe + yoe div 4 - yoe div 100))"

definition civil_from_doe :: "nat \<Rightarrow> nat \<Rightarrow> nat \<times> nat \<times> nat" where
  "civil_from_doe era doe =
     civil_from_yoe era doe ((doe - doe div 1460 + doe div 36524 - doe div 146096) div 365)"

definition civil_from_days :: "nat \<Rightarrow> nat \<times> nat \<times> nat" where
  "civil_from_days z = civil_from_doe (z div 146097) (z mod 146097)"

definition utc_date :: "nat \<Rightarrow> nat \<times> nat \<times> nat" where
  "utc_date t = civil_from_days (t div 86400000 + 719468)"

definition paths_history :: "jsv \<Rightarrow> nat \<Rightarrow> string" where
  "paths_history v t =
     (case utc_date t of (y, m, d) \<Rightarrow>
        ''vehicles/'' @ js_str v @ ''/history/'' @ show_nat y @ ''/'' @ padStart2 (show_nat m)
          @ ''/'' @ padStart2 (show_nat d) @ ''/'' @ show_nat t @ ''.json'')"

subsection \<open>Handshake: the authentication middleware\<close>

record jwt_claims =
  role :: jsv
  sub :: jsv

datatype sockdata = UserSock string | DeviceSock string

datatype err =
    Unauthorized
  | OnlyDevicesCanSend
  | OnlyUsersCanRequest
  | OnlyDevicesCanApprove
  | VehicleIdRequired
  | TypeError

text \<open>
  \<^verbatim>\<open>jwt.verify(token, JWT_SECRET)\<close> belongs to the JWT library and is a parameter
  \<open>jwt_verify\<close>: the claims of a token whose signature verifies, \<open>None\<close> where the library
  throws. The wrapper turns the exception into \<^verbatim>\<open>null\<close>.
\<close>

definition verifyJwt :: "(string \<Rightarrow> jwt_claims option) \<Rightarrow> string \<Rightarrow> jwt_claims option" where
  "verifyJwt jwt_verify token = jwt_verify token"

text \<open>\<^verbatim>\<open>token.split(".")\<close>.\<close>

fun split_dot :: "string \<Rightarrow> string list" where
  "split_dot [] = [[]]"
| "split_dot (c # cs) =
     (if c = CHR ''.'' then [] # split_dot cs
      else (case split_dot cs of [] \<Rightarrow> [[c]] | p # ps \<Rightarrow> (c # p) # ps))"

text \<open>
  \<^verbatim>\<open>JSON.parse(atob(part))\<close> is the parameter \<open>parse_b64\<close>: the claims of a part that is
  base64 of a JSON text, \<open>None\<close> where decoding or parsing throws or yields \<^verbatim>\<open>null\<close>. A
  missing token makes \<^verbatim>\<open>token.split\<close> throw, which the wrapper catches.
\<close>

definition decodeFakeJwt :: "(string \<Rightarrow> jwt_claims option) \<Rightarrow> string option \<Rightarrow> jwt_claims option" where
  "decodeFakeJwt parse_b64 token =
     (case token of
        None \<Rightarrow> None
      | Some t \<Rightarrow>
          (let parts = split_dot t
           in if length parts < 2 then None else parse_b64 (parts ! 1)))"

text \<open>\<^verbatim>\<open>a || b\<close> on two optional strings.\<close>

definition or_token :: "string option \<Rightarrow> string option \<Rightarrow> string option" where
  "or_token a b = (case a of Some t \<Rightarrow> (if t \<noteq> [] then Some t else b) | None \<Rightarrow> b)"

definition auth_middleware ::
  "(string \<Rightarrow> jwt_claims option) \<Rightarrow> (string \<Rightarrow> jwt_claims option) \<Rightarrow>
   string option \<Rightarrow> string option \<Rightarrow> err + sockdata" where
  "auth_middleware jwt_verify parse_b64 auth_token query_token =
     (let token = or_token auth_token query_token;
          payload = (case token of
                       None \<Rightarrow> None
                     | Some t \<Rightarrow> if t = [] then None else verifyJwt jwt_verify t);
          payload = (case payload of
                       None \<Rightarrow> decodeFakeJwt parse_b64 token
                     | Some p \<Rightarrow> Some p)
      in case payload of
           None \<Rightarrow> Inl Unauthorized
         | Some p \<Rightarrow>
             if \<not> truthy (role p) \<or> \<not> truthy (sub p) then Inl Unauthorized
             else if role p = Str ''user'' then Inr (UserSock (js_str (sub p)))
             else Inr (DeviceSock (js_str (sub p))))"

subsection \<open>Connections and rooms\<close>

datatype role_name = RoleUser | RoleDevice

fun socket_role :: "sockdata \<Rightarrow> role_name" where
  "socket_role (UserSock u) = RoleUser"
| "socket_role (DeviceSock v) = RoleDevice"

record registry =
  rooms :: "string \<Rightarrow> string set"
  userSockets :: "string \<rightharpoonup> string set"
  vehicleSockets :: "string \<rightharpoonup> string set"

definition empty_registry :: registry where
  "empty_registry = \<lparr>rooms = (\<lambda>r. {}), userSockets = Map.empty, vehicleSockets = Map.empty\<rparr>"

text \<open>\<^verbatim>\<open>if (!m.has(k)) m.set(k, new Set()); m.get(k).add(id)\<close>.\<close>

definition add_socket :: "(string \<rightharpoonup> string set) \<Rightarrow> string \<Rightarrow> string \<Rightarrow> (string \<rightharpoonup> string set)" where
  "add_socket m k sid = m(k \<mapsto> insert sid (case m k of None \<Rightarrow> {} | Some s \<Rightarrow> s))"

definition join_room :: "string \<Rightarrow> string \<Rightarrow> registry \<Rightarrow> registry" where
  "join_room room sid reg = reg\<lparr>rooms := (rooms reg)(room := insert sid (rooms reg room))\<rparr>"

fun on_connection :: "sockdata \<Rightarrow> string \<Rightarrow> registry \<Rightarrow> registry" where
  "on_connection (UserSock uid) sid reg =
     (join_room (''user:'' @ uid) sid reg)\<lparr>userSockets := add_socket (userSockets reg) uid sid\<rparr>"
| "on_connection (DeviceSock vid) sid reg =
     (join_room (''vehicle:'' @ vid) sid reg)\<lparr>vehicleSockets := add_socket (vehicleSockets reg) vid sid\<rparr>"

text \<open>
  A connection attempt: the middleware runs first; only when it calls \<^verbatim>\<open>next()\<close> without
  an error does the connection handler run and register the socket.
\<close>

definition connect ::
  "(string \<Rightarrow> jwt_claims option) \<Rightarrow> (string \<Rightarrow> jwt_claims option) \<Rightarrow>
   string option \<Rightarrow> string option \<Rightarrow> string \<Rightarrow> registry \<Rightarrow> (err + sockdata) \<times> registry" where
  "connect jwt_verify parse_b64 auth_token query_token sid reg =
     (case auth_middleware jwt_verify parse_b64 auth_token query_token of
        Inl e \<Rightarrow> (Inl e, reg)
      | Inr sd \<Rightarrow> (Inr sd, on_connection sd sid reg))"

subsection \<open>Socket handlers\<close>

datatype ack = AckOk | AckOkMsg string | AckError err

fun ack_ok :: "ack \<Rightarrow> bool" where
  "ack_ok AckOk = True"
| "ack_ok (AckOkMsg m) = True"
| "ack_ok (AckError e) = False"

datatype event =
    LocationLive position_report
  | UserLocationPermission jsv jsv nat
  | PermissionGranted jsv jsv

type_synonym emission = "string \<times> event"

record outcome =
  reply :: ack
  emitted :: "emission list"
  store :: bucket

record location_update =
  upd_vehicleId :: jsv
  upd_lat :: "real option"
  upd_lng :: "real option"
  upd_speed :: "real option"

record location_request =
  req_vehicleId :: jsv

record permission_granted =
  grant_userId :: jsv
  grant_vehicleId :: jsv

text \<open>The room \<^verbatim>\<open>`user:${uid}`\<close> of an element of a parsed \<^verbatim>\<open>accepted\<close> array.\<close>

fun json_str :: "jelem \<Rightarrow> string" where
  "json_str JNull = ''null''"
| "json_str (JStr s) = s"

definition user_room :: "string \<Rightarrow> string" where
  "user_room uid = ''user:'' @ uid"

definition vehicle_room :: "string \<Rightarrow> string" where
  "vehicle_room vid = ''vehicle:'' @ vid"

text \<open>
  \<^verbatim>\<open>location:update\<close>. \<open>now\<close> is the reading of \<^verbatim>\<open>Date.now()\<close>; \<open>data = None\<close> is a
  payload that cannot be destructured. The handler closes over the socket and so receives
  its \<open>sockdata\<close>.
\<close>

definition on_location_update ::
  "sockdata \<Rightarrow> nat \<Rightarrow> location_update option \<Rightarrow> bucket \<Rightarrow> outcome" where
  "on_location_update sd now data b =
     (if socket_role sd \<noteq> RoleDevice
      then \<lparr>reply = AckError OnlyDevicesCanSend, emitted = [], store = b\<rparr>
      else case data of
        None \<Rightarrow> \<lparr>reply = AckError TypeError, emitted = [], store = b\<rparr>
      | Some d \<Rightarrow>
          (let payload = \<lparr>vehicleId = upd_vehicleId d, lat = upd_lat d, lng = upd_lng d,
                          speed = upd_speed d, ts = now\<rparr>;
               b1 = putJSON_pos (paths_current (upd_vehicleId d)) payload b;
               b2 = putJSON_pos (paths_history (upd_vehicleId d) now) payload b1;
               vehPerm = getJSON_perm b2 (paths_vehPerm (upd_vehicleId d)) [] accepted
           in \<lparr>reply = AckOk,
               emitted = map (\<lambda>uid. (user_room (json_str uid), LocationLive payload)) vehPerm,
               store = b2\<rparr>))"

text \<open>\<^verbatim>\<open>location:request\<close>.\<close>

definition on_location_request ::
  "sockdata \<Rightarrow> nat \<Rightarrow> location_request option \<Rightarrow> bucket \<Rightarrow> outcome" where
  "on_location_request sd now data b =
     (case sd of
        DeviceSock v \<Rightarrow> \<lparr>reply = AckError OnlyUsersCanRequest, emitted = [], store = b\<rparr>
      | UserSock uid \<Rightarrow>
          (case data of
             None \<Rightarrow> \<lparr>reply = AckError TypeError, emitted = [], store = b\<rparr>
           | Some d \<Rightarrow>
               if \<not> truthy (req_vehicleId d)
               then \<lparr>reply = AckError VehicleIdRequired, emitted = [], store = b\<rparr>
               else \<lparr>reply = AckOkMsg ''Permission request sent'',
                     emitted = [(vehicle_room (js_str (req_vehicleId d)),
                                 UserLocationPermission (Str uid) (req_vehicleId d) now)],
                     store = updatePermission (req_vehicleId d) (Str uid) ''pending'' b\<rparr>))"

text \<open>\<^verbatim>\<open>permission:granted\<close>.\<close>

definition on_permission_granted ::
  "sockdata \<Rightarrow> permission_granted option \<Rightarrow> bucket \<Rightarrow> outcome" where
  "on_permission_granted sd data b =
     (if socket_role sd \<noteq> RoleDevice
      then \<lparr>reply = AckError OnlyDevicesCanApprove, emitted = [], store = b\<rparr>
      else case data of
        None \<Rightarrow> \<lparr>reply = AckError TypeError, emitted = [], store = b\<rparr>
      | Some d \<Rightarrow>
          \<lparr>reply = AckOk,
           emitted = [(user_room (js_str (grant_userId d)),
                       PermissionGranted (grant_vehicleId d) (grant_userId d))],
           store = updatePermission (grant_vehicleId d) (grant_userId d) ''accepted'' b\<rparr>)"

subsection \<open>The history route\<close>

text \<open>
  \<^verbatim>\<open>ListObjectsV2\<close> of the S3 client: the keys under a prefix in the order of their bytes,
  at most \<open>MaxKeys\<close> per call; a continuation token names the position in that order at
  which the next call resumes. Only keys under \<^verbatim>\<open>vehicles/\<close> are ever listed.
\<close>

record list_output =
  Contents :: "string list"
  IsTruncated :: bool
  NextContinuationToken :: "nat option"

definition keys_under :: "bucket \<Rightarrow> string \<Rightarrow> string list" where
  "keys_under b pfx = sort (remdups (filter (prefix pfx) (map fst (positions b))))"

definition ListObjectsV2 :: "bucket \<Rightarrow> string \<Rightarrow> nat option \<Rightarrow> nat \<Rightarrow> list_output" where
  "ListObjectsV2 b pfx token maxKeys =
     (let start = (case token of None \<Rightarrow> 0 | Some n \<Rightarrow> n);
          rest = drop start (keys_under b pfx)
      in \<lparr>Contents = take maxKeys rest,
          IsTruncated = (maxKeys < length rest),
          NextContinuationToken =
            (if maxKeys < length rest then Some (start + maxKeys) else None)\<rparr>)"

text \<open>
  \<^verbatim>\<open>key.match(/\/(\d+)\.json$/)\<close> followed by \<^verbatim>\<open>Number(match[1])\<close>: the key ends in
  \<^verbatim>\<open>.json\<close>, and the digits that stand right before that ending are at least one and are
  preceded by a slash.
\<close>

definition key_ts :: "string \<Rightarrow> nat option" where
  "key_ts k =
     (if suffix ''.json'' k
      then (let stem = rev (take (length k - 5) k);
                ds = takeWhile is_digit stem;
                rest = dropWhile is_digit stem
            in if ds \<noteq> [] \<and> rest \<noteq> [] \<and> hd rest = CHR ''/''
               then Some (number_of_digits (rev ds)) else None)
      else None)"

text \<open>
  A query parameter after \<^verbatim>\<open>req.query.x ? Number(req.query.x) : null\<close>. The conversion
  \<^verbatim>\<open>Number\<close> of a string is the parameter \<open>num\<close>; its result is \<^verbatim>\<open>NaN\<close> or a number.
\<close>

datatype jsnum = NaN | Num int

definition query_bound :: "(string \<Rightarrow> jsnum) \<Rightarrow> string option \<Rightarrow> jsnum option" where
  "query_bound num q =
     (case q of None \<Rightarrow> None | Some s \<Rightarrow> if s = [] then None else Some (num s))"

text \<open>
  \<^verbatim>\<open>!x\<close> for such a bound, and the comparisons \<^verbatim>\<open>ts >= x\<close>, \<^verbatim>\<open>ts <= x\<close>, in which
  \<^verbatim>\<open>null\<close> counts as 0 and \<^verbatim>\<open>NaN\<close> compares false.
\<close>

fun not_bound :: "jsnum option \<Rightarrow> bool" where
  "not_bound None = True"
| "not_bound (Some NaN) = True"
| "not_bound (Some (Num n)) = (n = 0)"

fun ts_ge :: "nat \<Rightarrow> jsnum option \<Rightarrow> bool" where
  "ts_ge t (Some (Num n)) = (n \<le> int t)"
| "ts_ge t (Some NaN) = False"
| "ts_ge t None = True"

fun ts_le :: "nat \<Rightarrow> jsnum option \<Rightarrow> bool" where
  "ts_le t (Some (Num n)) = (int t \<le> n)"
| "ts_le t (Some NaN) = False"
| "ts_le t None = (t = 0)"

definition in_bounds :: "jsnum option \<Rightarrow> jsnum option \<Rightarrow> nat \<Rightarrow> bool" where
  "in_bounds from to t = ((not_bound from \<or> ts_ge t from) \<and> (not_bound to \<or> ts_le t to))"

text \<open>The body of the \<^verbatim>\<open>for\<close> loop over one page of the listing.\<close>

fun page_keys :: "jsnum option \<Rightarrow> jsnum option \<Rightarrow> string list \<Rightarrow> (string \<times> nat) list" where
  "page_keys from to [] = []"
| "page_keys from to (k # ks) =
     (case key_ts k of
        None \<Rightarrow> page_keys from to ks
      | Some t \<Rightarrow> if in_bounds from to t then (k, t) # page_keys from to ks
                  else page_keys from to ks)"

text \<open>The \<^verbatim>\<open>do ... while (token)\<close> loop, 1000 keys per page.\<close>

function collect_keys ::
  "bucket \<Rightarrow> string \<Rightarrow> jsnum option \<Rightarrow> jsnum option \<Rightarrow> nat option \<Rightarrow> (string \<times> nat) list
   \<Rightarrow> (string \<times> nat) list" where
  "collect_keys b pfx from to token keys =
     (let out = ListObjectsV2 b pfx token 1000;
          keys' = keys @ page_keys from to (Contents out);
          token' = (if IsTruncated out then NextContinuationToken out else None)
      in case token' of
           None \<Rightarrow> keys'
         | Some n \<Rightarrow> collect_keys b pfx from to (Some n) keys')"
  by pat_completeness auto
termination
  by (relation "measure (\<lambda>(b, pfx, from, to, token, keys).
        length (keys_under b pfx) - (case token of None \<Rightarrow> 0 | Some n \<Rightarrow> n))")
     (auto simp: ListObjectsV2_def Let_def split: if_splits option.splits)

declare collect_keys.simps [simp del]

datatype history_response =
    HistoryOk nat "position_report list"
  | HistoryError

text \<open>\<^verbatim>\<open>keys.sort((a, b) => a.ts - b.ts)\<close> and \<^verbatim>\<open>keys.slice(-2000)\<close>.\<close>

definition sorted_keys :: "(string \<times> nat) list \<Rightarrow> (string \<times> nat) list" where
  "sorted_keys keys = sort_key snd keys"

definition slice_last :: "nat \<Rightarrow> 'a list \<Rightarrow> 'a list" where
  "slice_last n xs = drop (length xs - n) xs"

definition history_prefix :: "string \<Rightarrow> string" where
  "history_prefix vid = ''vehicles/'' @ vid @ ''/history/''"

text \<open>The keys whose objects are fetched, in the order of the fetches.\<close>

definition history_keys ::
  "(string \<Rightarrow> jsnum) \<Rightarrow> bucket \<Rightarrow> string \<Rightarrow> string option \<Rightarrow> string option \<Rightarrow> (string \<times> nat) list" where
  "history_keys num b vid from_q to_q =
     (let from = query_bound num from_q;
          to = query_bound num to_q;
          keys = collect_keys b (history_prefix vid) from to None []
      in slice_last 2000 (sorted_keys keys))"

text \<open>
  The loop that fetches and parses each object; a failing \<^verbatim>\<open>GetObject\<close> throws and the
  route answers with status 500.
\<close>

fun fetch_all :: "bucket \<Rightarrow> (string \<times> nat) list \<Rightarrow> position_report list option" where
  "fetch_all b [] = Some []"
| "fetch_all b ((k, t) # ks) =
     (case map_of (positions b) k of
        None \<Rightarrow> None
      | Some r \<Rightarrow> (case fetch_all b ks of None \<Rightarrow> None | Some rs \<Rightarrow> Some (r # rs)))"

definition history_route ::
  "(string \<Rightarrow> jsnum) \<Rightarrow> bucket \<Rightarrow> string \<Rightarrow> string option \<Rightarrow> string option \<Rightarrow> history_response" where
  "history_route num b vid from_q to_q =
     (case fetch_all b (history_keys num b vid from_q to_q) of
        None \<Rightarrow> HistoryError
      | Some results \<Rightarrow> HistoryOk (length results) results)"

subsection \<open>Notions used in the statements\<close>

text \<open>What \<^verbatim>\<open>updatePermission\<close> does to one document, given the counterpart identity.\<close>

definition after_status :: "string \<Rightarrow> jsv \<Rightarrow> perm_doc \<Rightarrow> perm_doc" where
  "after_status status x d =
     (if status = ''pending'' then d\<lparr>pending := push_if_absent (pending d) x\<rparr>
      else if status = ''accepted''
      then d\<lparr>pending := filter (strict_neq x) (pending d),
             accepted := push_if_absent (accepted d) x\<rparr>
      else d)"

text \<open>A sequence of \<open>request\<close> and \<open>grant\<close> calls, run one after the other.\<close>

datatype call = Request string string | Grant string string

fun run_call :: "call \<Rightarrow> bucket \<Rightarrow> bucket" where
  "run_call (Request v u) b = request v u b"
| "run_call (Grant v u) b = grant v u b"

definition run_calls :: "call list \<Rightarrow> bucket \<Rightarrow> bucket" where
  "run_calls cs b = fold run_call cs b"

text \<open>
  The symmetry of a pair: user \<open>u\<close> is pending in the document of vehicle \<open>v\<close> exactly when
  \<open>v\<close> is pending in the document of \<open>u\<close>, and likewise for accepted.
\<close>

definition sym_pair :: "bucket \<Rightarrow> string \<Rightarrow> string \<Rightarrow> bool" where
  "sym_pair b v u =
     ((JStr u \<in> set (pending (vehDoc b v)) \<longleftrightarrow> JStr v \<in> set (pending (usrDoc b u))) \<and>
      (JStr u \<in> set (accepted (vehDoc b v)) \<longleftrightarrow> JStr v \<in> set (accepted (usrDoc b u))))"

text \<open>
  The read \<^verbatim>\<open>(await getJSON(paths.vehPerm(vehicleId))).accepted || []\<close> of the fan-out.
\<close>

text \<open>
  The stored history records of a vehicle: the keys under its history prefix that match the
  key pattern, each with the timestamp in its name. \<open>matching\<close> keeps those that pass the
  route's test of the two query parameters.
\<close>

definition stored_records :: "bucket \<Rightarrow> string \<Rightarrow> (string \<times> nat) list" where
  "stored_records b vid = page_keys None None (keys_under b (history_prefix vid))"

definition matching ::
  "(string \<Rightarrow> jsnum) \<Rightarrow> bucket \<Rightarrow> string \<Rightarrow> string option \<Rightarrow> string option \<Rightarrow> (string \<times> nat) list" where
  "matching num b vid from_q to_q =
     page_keys (query_bound num from_q) (query_bound num to_q) (keys_under b (history_prefix vid))"

text \<open>
  The bounds \<open>T1\<close> and \<open>T2\<close> of a query, \<open>None\<close> for a side without bound, and the query
  parameters that stand for them: no parameter for an absent bound, a parameter that
  \<^verbatim>\<open>Number\<close> reads as the bound otherwise. An upper bound of 0 is left out.
\<close>

definition between :: "int option \<Rightarrow> int option \<Rightarrow> nat \<Rightarrow> bool" where
  "between T1 T2 t =
     ((case T1 of None \<Rightarrow> True | Some lo \<Rightarrow> lo \<le> int t) \<and>
      (case T2 of None \<Rightarrow> True | Some hi \<Rightarrow> int t \<le> hi))"

definition lower_param :: "(string \<Rightarrow> jsnum) \<Rightarrow> string option \<Rightarrow> int option \<Rightarrow> bool" where
  "lower_param num q T1 =
     (case T1 of
        None \<Rightarrow> q = None
      | Some lo \<Rightarrow> (case q of None \<Rightarrow> False | Some s \<Rightarrow> s \<noteq> [] \<and> num s = Num lo))"

definition upper_param :: "(string \<Rightarrow> jsnum) \<Rightarrow> string option \<Rightarrow> int option \<Rightarrow> bool" where
  "upper_param num q T2 =
     (case T2 of
        None \<Rightarrow> q = None
      | Some hi \<Rightarrow> (case q of None \<Rightarrow> False | Some s \<Rightarrow> s \<noteq> [] \<and> num s = Num hi \<and> hi \<noteq> 0))"

text \<open>The position report that \<^verbatim>\<open>location:update\<close> builds from its payload and the clock.\<close>

definition report_of :: "nat \<Rightarrow> location_update \<Rightarrow> position_report" where
  "report_of now d =
     \<lparr>vehicleId = upd_vehicleId d, lat = upd_lat d, lng = upd_lng d, speed = upd_speed d,
      ts = now\<rparr>"

text \<open>
  The payload the middleware ends up with: the verified claims of the token, or else the
  claims decoded from its second part.
\<close>

definition credential_payload ::
  "(string \<Rightarrow> jwt_claims option) \<Rightarrow> (string \<Rightarrow> jwt_claims option) \<Rightarrow>
   string option \<Rightarrow> string option \<Rightarrow> jwt_claims option" where
  "credential_payload jwt_verify parse_b64 auth_token query_token =
     (let token = or_token auth_token query_token
      in case (case token of
                 None \<Rightarrow> None
               | Some t \<Rightarrow> if t = [] then None else verifyJwt jwt_verify t) of
           None \<Rightarrow> decodeFakeJwt parse_b64 token
         | Some p \<Rightarrow> Some p)"

text \<open>The bodies of the objects under a list of keys.\<close>

definition bodies :: "bucket \<Rightarrow> (string \<times> nat) list \<Rightarrow> position_report list" where
  "bodies b ks = map (\<lambda>kt. the (map_of (positions b) (fst kt))) ks"

definition acceptedViewers :: "bucket \<Rightarrow> jsv \<Rightarrow> jelem list" where
  "acceptedViewers b vid = getJSON_perm b (paths_vehPerm vid) [] accepted"

subsection \<open>Sample inputs\<close>

text \<open>
  Concrete inputs for the examples below. \<open>decimal_Number\<close> is \<^verbatim>\<open>Number\<close> on strings of
  decimal digits, the form of an epoch-millisecond query parameter; on any other string it
  answers \<^verbatim>\<open>NaN\<close> and is used on none.
\<close>

definition decimal_Number :: "string \<Rightarrow> jsnum" where
  "decimal_Number s =
     (if s \<noteq> [] \<and> list_all is_digit s then Num (int (number_of_digits s)) else NaN)"

text \<open>
  Demo clients build their token as \<^verbatim>\<open>btoa(header).btoa(payload).fake-signature\<close>, which no
  secret verifies: \<open>sample_jwt_verify\<close> verifies no token, and \<open>sample_parse_b64\<close> decodes the
  two payloads \<^verbatim>\<open>{"sub":"x","role":"admin"}\<close> and \<^verbatim>\<open>{"sub":"U1","role":"user"}\<close>.
\<close>

definition sample_jwt_verify :: "string \<Rightarrow> jwt_claims option" where
  "sample_jwt_verify token = None"

definition sample_parse_b64 :: "string \<Rightarrow> jwt_claims option" where
  "sample_parse_b64 part =
     (if part = ''eyJzdWIiOiJ4Iiwicm9sZSI6ImFkbWluIn0=''
      then Some \<lparr>role = Str ''admin'', sub = Str ''x''\<rparr>
      else if part = ''eyJzdWIiOiJVMSIsInJvbGUiOiJ1c2VyIn0=''
      then Some \<lparr>role = Str ''user'', sub = Str ''U1''\<rparr>
      else None)"

text \<open>
  Two devices report in the same millisecond, one for vehicle \<^verbatim>\<open>v\<close> and one for a vehicle
  whose identifier is \<^verbatim>\<open>v/history/w\<close>.
\<close>

definition two_devices_bucket :: bucket where
  "two_devices_bucket =
     store (on_location_update (DeviceSock ''w'') 5
              (Some \<lparr>upd_vehicleId = Str ''v/history/w'', upd_lat = Some 1, upd_lng = Some 2,
                     upd_speed = Some 3\<rparr>)
       (store (on_location_update (DeviceSock ''v'') 5
                 (Some \<lparr>upd_vehicleId = Str ''v'', upd_lat = Some 4, upd_lng = Some 6,
                        upd_speed = Some 40\<rparr>)
          empty_bucket)))"

text \<open>One device reports for vehicle \<^verbatim>\<open>v\<close> at milliseconds 5 and 9.\<close>

definition one_vehicle_bucket :: bucket where
  "one_vehicle_bucket =
     store (on_location_update (DeviceSock ''v'') 9
              (Some \<lparr>upd_vehicleId = Str ''v'', upd_lat = Some 1, upd_lng = Some 2,
                     upd_speed = Some 3\<rparr>)
       (store (on_location_update (DeviceSock ''v'') 5
                 (Some \<lparr>upd_vehicleId = Str ''v'', upd_lat = Some 4, upd_lng = Some 6,
                        upd_speed = Some 40\<rparr>)
          empty_bucket)))"

text \<open>A history of 2001 records of vehicle \<^verbatim>\<open>v\<close>, one for each millisecond from 0 to 2000.\<close>

definition sample_report :: "nat \<Rightarrow> position_report" where
  "sample_report t = \<lparr>vehicleId = Str ''v'', lat = None, lng = None, speed = None, ts = t\<rparr>"

definition sample_entry :: "nat \<Rightarrow> string \<times> position_report" where
  "sample_entry t = (paths_history (Str ''v'') t, sample_report t)"

definition long_history :: bucket where
  "long_history = \<lparr>perms = [], positions = map sample_entry [0..<2001]\<rparr>"

section \<open>Properties of the permission documents\<close>

lemma veh_usr_key_distinct: "paths_vehPerm v \<noteq> paths_userPerm u"
  by (simp add: paths_vehPerm_def paths_userPerm_def)

lemma vehPerm_inj: "paths_vehPerm (Str v) = paths_vehPerm (Str v') \<longleftrightarrow> v = v'"
  by (simp add: paths_vehPerm_def)

lemma userPerm_inj: "paths_userPerm (Str u) = paths_userPerm (Str u') \<longleftrightarrow> u = u'"
  by (simp add: paths_userPerm_def)

lemma vehDoc_updatePermission:
  "vehDoc (updatePermission (Str v) (Str u) s b) v' =
     (if v' = v then after_status s (Str u) (vehDoc b v) else vehDoc b v')"
  by (simp add: vehDoc_def updatePermission_def Let_def getJSON_perm_def putJSON_perm_def
      update_conv' veh_usr_key_distinct vehPerm_inj after_status_def)

lemma usrDoc_updatePermission:
  "usrDoc (updatePermission (Str v) (Str u) s b) u' =
     (if u' = u then after_status s (Str v) (usrDoc b u) else usrDoc b u')"
  by (simp add: usrDoc_def updatePermission_def Let_def getJSON_perm_def putJSON_perm_def
      update_conv' veh_usr_key_distinct[symmetric] userPerm_inj after_status_def)

lemma pending_after_status:
  "JStr x \<in> set (pending (after_status s (Str y) d)) \<longleftrightarrow>
     (if s = ''pending'' then x = y \<or> JStr x \<in> set (pending d)
      else if s = ''accepted'' then x \<noteq> y \<and> JStr x \<in> set (pending d)
      else JStr x \<in> set (pending d))"
  by (auto simp: after_status_def push_if_absent_def)

lemma accepted_after_status:
  "JStr x \<in> set (accepted (after_status s (Str y) d)) \<longleftrightarrow>
     (if s = ''accepted'' then x = y \<or> JStr x \<in> set (accepted d)
      else JStr x \<in> set (accepted d))"
  by (auto simp: after_status_def push_if_absent_def)

lemma sym_pair_updatePermission:
  "sym_pair b v u \<Longrightarrow> sym_pair (updatePermission (Str v') (Str u') s b) v u"
  unfolding sym_pair_def
  by (auto simp: vehDoc_updatePermission usrDoc_updatePermission pending_after_status
      accepted_after_status)

lemma sym_pair_run_call: "sym_pair b v u \<Longrightarrow> sym_pair (run_call c b) v u"
  by (cases c) (simp_all add: request_def grant_def sym_pair_updatePermission)

lemma vehDoc_empty: "vehDoc empty_bucket v = empty_doc"
  by (simp add: vehDoc_def getJSON_perm_def empty_bucket_def)

lemma usrDoc_empty: "usrDoc empty_bucket u = empty_doc"
  by (simp add: usrDoc_def getJSON_perm_def empty_bucket_def)

lemma sym_pair_empty: "sym_pair empty_bucket v u"
  by (simp add: sym_pair_def vehDoc_empty usrDoc_empty empty_doc_def)

text \<open>
  C2. Take any pair of a vehicle and a user whose membership is the same in the vehicle's
  document and in the user's document: pending in both or in neither, accepted in both or in
  neither. After any finite sequence of \<open>request\<close> and \<open>grant\<close> calls (for any pairs, this
  one or others) run one after the other, the membership of the pair is again the same in
  the two documents.
\<close>

theorem symmetry_preserved:
  "sym_pair b v u \<Longrightarrow> sym_pair (run_calls cs b) v u"
  unfolding run_calls_def
  by (induction cs arbitrary: b) (simp_all add: sym_pair_run_call)

theorem symmetry_preserved_witness:
  "sym_pair empty_bucket ''V1'' ''U1'' \<and>
   sym_pair (run_calls [Request ''V1'' ''U1'', Request ''V2'' ''U1'', Grant ''V1'' ''U1'']
               empty_bucket) ''V1'' ''U1''"
  using symmetry_preserved [of empty_bucket "''V1''" "''U1''"
      "[Request ''V1'' ''U1'', Request ''V2'' ''U1'', Grant ''V1'' ''U1'']"]
  by (simp add: sym_pair_empty)

lemma strict_neq_Str: "strict_neq (Str x) = (\<lambda>e. e \<noteq> JStr x)"
  by (rule ext) simp

lemma after_status_idem:
  "after_status s (Str x) (after_status s (Str x) d) = after_status s (Str x) d"
  by (auto simp: after_status_def push_if_absent_def strict_neq_Str)

lemma updatePermission_alt:
  "updatePermission (Str v) (Str u) s b =
     putJSON_perm (paths_userPerm (Str u)) (after_status s (Str v) (usrDoc b u))
       (putJSON_perm (paths_vehPerm (Str v)) (after_status s (Str u) (vehDoc b v)) b)"
  by (simp add: updatePermission_def Let_def after_status_def vehDoc_def usrDoc_def)

lemma putJSON_perm_same:
  "map_of (perms b) k = Some d \<Longrightarrow> putJSON_perm k d b = b"
  by (simp add: putJSON_perm_def update_triv)

text \<open>
  C3. For every vehicle, user and status (\<open>pending\<close> for \<open>request\<close>, \<open>accepted\<close> for
  \<open>grant\<close>, or any other string) and every bucket, calling \<^verbatim>\<open>updatePermission\<close> a second
  time with the same arguments leaves the whole bucket as the first call left it.
\<close>

theorem updatePermission_idempotent:
  "updatePermission (Str v) (Str u) s (updatePermission (Str v) (Str u) s b)
     = updatePermission (Str v) (Str u) s b"
proof -
  let ?b1 = "updatePermission (Str v) (Str u) s b"
  let ?veh = "after_status s (Str u) (vehDoc b v)"
  let ?usr = "after_status s (Str v) (usrDoc b u)"
  have veh1: "map_of (perms ?b1) (paths_vehPerm (Str v)) = Some ?veh"
    by (simp add: updatePermission_alt putJSON_perm_def update_conv' veh_usr_key_distinct)
  have usr1: "map_of (perms ?b1) (paths_userPerm (Str u)) = Some ?usr"
    by (simp add: updatePermission_alt putJSON_perm_def update_conv')
  have v1: "vehDoc ?b1 v = ?veh" and u1: "usrDoc ?b1 u = ?usr"
    by (simp_all add: vehDoc_updatePermission usrDoc_updatePermission)
  have "updatePermission (Str v) (Str u) s ?b1 =
          putJSON_perm (paths_userPerm (Str u)) ?usr
            (putJSON_perm (paths_vehPerm (Str v)) ?veh ?b1)"
    by (subst updatePermission_alt) (simp only: v1 u1 after_status_idem)
  also have "\<dots> = ?b1"
    by (simp add: putJSON_perm_same veh1 usr1)
  finally show ?thesis .
qed

text \<open>
  C4. For every vehicle \<open>v\<close>, user \<open>u\<close> and bucket, after \<open>request\<close> followed by \<open>grant\<close>
  the user is not pending and is accepted in the vehicle's document, and the vehicle is not
  pending and is accepted in the user's document; so in neither document is the pair both
  pending and accepted.
\<close>

theorem grant_after_request:
  "JStr u \<notin> set (pending (vehDoc (grant v u (request v u b)) v)) \<and>
   JStr v \<notin> set (pending (usrDoc (grant v u (request v u b)) u)) \<and>
   JStr u \<in> set (accepted (vehDoc (grant v u (request v u b)) v)) \<and>
   JStr v \<in> set (accepted (usrDoc (grant v u (request v u b)) u))"
  by (simp add: grant_def request_def vehDoc_updatePermission usrDoc_updatePermission
      pending_after_status accepted_after_status)

text \<open>
  C9. Let the pair of vehicle \<open>v\<close> and user \<open>u\<close> be absent from both documents (never
  requested). A \<^verbatim>\<open>permission:granted\<close> event for the pair, sent on any device connection,
  is acknowledged with \<^verbatim>\<open>{ok: true}\<close>, and afterwards the user is accepted in the vehicle's
  document and the vehicle is accepted in the user's document.
\<close>

theorem grant_without_request:
  assumes "JStr u \<notin> set (pending (vehDoc b v))" and "JStr u \<notin> set (accepted (vehDoc b v))"
    and "JStr v \<notin> set (pending (usrDoc b u))" and "JStr v \<notin> set (accepted (usrDoc b u))"
  shows "reply (on_permission_granted (DeviceSock d)
                  (Some \<lparr>grant_userId = Str u, grant_vehicleId = Str v\<rparr>) b) = AckOk \<and>
         JStr u \<in> set (accepted (vehDoc (store (on_permission_granted (DeviceSock d)
                  (Some \<lparr>grant_userId = Str u, grant_vehicleId = Str v\<rparr>) b)) v)) \<and>
         JStr v \<in> set (accepted (usrDoc (store (on_permission_granted (DeviceSock d)
                  (Some \<lparr>grant_userId = Str u, grant_vehicleId = Str v\<rparr>) b)) u))"
  by (simp add: on_permission_granted_def vehDoc_updatePermission usrDoc_updatePermission
      accepted_after_status)

theorem grant_without_request_witness:
  "JStr ''U1'' \<notin> set (pending (vehDoc empty_bucket ''V1'')) \<and>
   JStr ''U1'' \<notin> set (accepted (vehDoc empty_bucket ''V1'')) \<and>
   JStr ''V1'' \<notin> set (pending (usrDoc empty_bucket ''U1'')) \<and>
   JStr ''V1'' \<notin> set (accepted (usrDoc empty_bucket ''U1'')) \<and>
   reply (on_permission_granted (DeviceSock ''V1'')
            (Some \<lparr>grant_userId = Str ''U1'', grant_vehicleId = Str ''V1''\<rparr>) empty_bucket) = AckOk \<and>
   JStr ''U1'' \<in> set (accepted (vehDoc (store (on_permission_granted (DeviceSock ''V1'')
            (Some \<lparr>grant_userId = Str ''U1'', grant_vehicleId = Str ''V1''\<rparr>) empty_bucket)) ''V1''))"
  using grant_without_request [of "''U1''" empty_bucket "''V1''" "''V1''"]
  by (simp add: vehDoc_empty usrDoc_empty empty_doc_def)

section \<open>Properties of the history route\<close>

lemma page_keys_append:
  "page_keys f t (xs @ ys) = page_keys f t xs @ page_keys f t ys"
  by (induction xs) (auto split: option.splits)

lemma collect_keys_unfold:
  "collect_keys b pfx f t token keys =
     (let start = (case token of None \<Rightarrow> 0 | Some n \<Rightarrow> n);
          rest = drop start (keys_under b pfx);
          keys' = keys @ page_keys f t (take 1000 rest)
      in if 1000 < length rest then collect_keys b pfx f t (Some (start + 1000)) keys' else keys')"
  by (subst collect_keys.simps) (simp add: ListObjectsV2_def Let_def)

lemma collect_keys_from:
  "collect_keys b pfx f t token keys =
     keys @ page_keys f t (drop (case token of None \<Rightarrow> 0 | Some n \<Rightarrow> n) (keys_under b pfx))"
proof (induction "length (keys_under b pfx) - (case token of None \<Rightarrow> 0 | Some n \<Rightarrow> n)"
    arbitrary: token keys rule: less_induct)
  case less
  let ?start = "case token of None \<Rightarrow> 0 | Some n \<Rightarrow> n"
  let ?rest = "drop ?start (keys_under b pfx)"
  show ?case
  proof (cases "1000 < length ?rest")
    case True
    have "collect_keys b pfx f t token keys =
            collect_keys b pfx f t (Some (?start + 1000)) (keys @ page_keys f t (take 1000 ?rest))"
      using True by (subst collect_keys_unfold) (simp add: Let_def)
    also have "\<dots> = (keys @ page_keys f t (take 1000 ?rest)) @
                      page_keys f t (drop (?start + 1000) (keys_under b pfx))"
      using True by (subst less.hyps) simp_all
    also have "\<dots> = keys @ page_keys f t (take 1000 ?rest @ drop 1000 ?rest)"
      by (simp add: page_keys_append add.commute)
    also have "take 1000 ?rest @ drop 1000 ?rest = ?rest"
      by (rule append_take_drop_id)
    finally show ?thesis .
  next
    case False
    then show ?thesis
      by (subst collect_keys_unfold) (simp add: Let_def)
  qed
qed

lemma collect_keys_all: "collect_keys b (history_prefix vid) (query_bound num fq) (query_bound num tq) None [] = matching num b vid fq tq"
  by (simp add: collect_keys_from matching_def)

lemma history_keys_matching:
  "history_keys num b vid fq tq = slice_last 2000 (sorted_keys (matching num b vid fq tq))"
  by (simp add: history_keys_def Let_def collect_keys_all)

lemma page_keys_filter:
  "page_keys f t ks = filter (\<lambda>kt. in_bounds f t (snd kt)) (page_keys None None ks)"
  by (induction ks) (auto simp: in_bounds_def split: option.splits)

lemma in_bounds_between:
  "lower_param num fq T1 \<Longrightarrow> upper_param num tq T2 \<Longrightarrow>
   in_bounds (query_bound num fq) (query_bound num tq) t = between T1 T2 t"
  by (auto simp: lower_param_def upper_param_def in_bounds_def between_def query_bound_def
      split: option.splits)

lemma matching_between:
  "lower_param num fq T1 \<Longrightarrow> upper_param num tq T2 \<Longrightarrow>
   matching num b vid fq tq = filter (\<lambda>kt. between T1 T2 (snd kt)) (stored_records b vid)"
  by (simp add: matching_def stored_records_def page_keys_filter[of "query_bound num fq"] in_bounds_between)

lemma page_keys_fst: "kt \<in> set (page_keys f t ks) \<Longrightarrow> fst kt \<in> set ks \<and> key_ts (fst kt) = Some (snd kt)"
  by (induction ks) (auto split: option.splits if_splits)

lemma keys_under_set: "set (keys_under b pfx) = {k \<in> fst ` set (positions b). prefix pfx k}"
  by (auto simp: keys_under_def)

lemma fetch_all_bodies:
  "\<forall>kt \<in> set ks. fst kt \<in> fst ` set (positions b) \<Longrightarrow> fetch_all b ks = Some (bodies b ks)"
proof (induction ks)
  case Nil
  then show ?case by (simp add: bodies_def)
next
  case (Cons kt ks)
  obtain k t where kt: "kt = (k, t)" by (cases kt)
  from Cons.prems have "k \<in> fst ` set (positions b)" by (simp add: kt)
  then obtain r where "map_of (positions b) k = Some r"
    by (metis domD dom_map_of_conv_image_fst)
  with Cons show ?case by (simp add: kt bodies_def)
qed

lemma slice_last_subset: "set (slice_last n xs) \<subseteq> set xs"
  by (simp add: slice_last_def set_drop_subset)

lemma history_keys_stored:
  "kt \<in> set (history_keys num b vid fq tq) \<Longrightarrow> kt \<in> set (matching num b vid fq tq)"
  using slice_last_subset[of 2000 "sorted_keys (matching num b vid fq tq)"]
  by (auto simp: history_keys_matching sorted_keys_def)

lemma matching_in_bucket:
  "kt \<in> set (matching num b vid fq tq) \<Longrightarrow> fst kt \<in> fst ` set (positions b)"
  using page_keys_fst[of kt] keys_under_set[of b "history_prefix vid"]
  by (auto simp: matching_def)

lemma history_route_ok:
  "history_route num b vid fq tq =
     HistoryOk (length (history_keys num b vid fq tq)) (bodies b (history_keys num b vid fq tq))"
proof -
  have "fetch_all b (history_keys num b vid fq tq) = Some (bodies b (history_keys num b vid fq tq))"
    by (rule fetch_all_bodies) (blast dest: history_keys_stored matching_in_bucket)
  then show ?thesis by (simp add: history_route_def bodies_def)
qed

lemma sorted_slice_last: "sorted (map f xs) \<Longrightarrow> sorted (map f (slice_last n xs))"
  by (simp add: slice_last_def drop_map[symmetric] sorted_wrt_drop)

lemma history_keys_sorted: "sorted (map snd (history_keys num b vid fq tq))"
  by (simp add: history_keys_matching sorted_keys_def sorted_slice_last)

lemma slice_last_all: "length xs \<le> n \<Longrightarrow> slice_last n xs = xs"
  by (simp add: slice_last_def)

lemma length_slice_last: "length (slice_last n xs) = min n (length xs)"
  by (simp add: slice_last_def)

lemma distinct_slice_last: "distinct (map f xs) \<Longrightarrow> distinct (map f (slice_last n xs))"
  by (simp add: slice_last_def drop_map[symmetric])

lemma digit_cases: "d < 10 \<Longrightarrow> d \<in> {0, 1, 2, 3, 4, 5, 6, 7, 8, 9::nat}"
  by auto

lemma digit_char_is_digit: "d < 10 \<Longrightarrow> is_digit (digit_char d)"
  using digit_cases[of d] by (auto simp: digit_char_def is_digit_def)

lemma digit_val_digit_char: "d < 10 \<Longrightarrow> digit_val (digit_char d) = d"
  using digit_cases[of d] by (auto simp: digit_char_def digit_val_def)

lemma show_nat_nonempty: "show_nat n \<noteq> []"
  by (subst show_nat.simps) simp

lemma show_nat_digits: "c \<in> set (show_nat n) \<Longrightarrow> is_digit c"
proof (induction n rule: show_nat.induct)
  case (1 n)
  show ?case
  proof (cases "n < 10")
    case True
    with "1.prems" show ?thesis
      by (subst (asm) show_nat.simps) (simp add: digit_char_is_digit)
  next
    case False
    with "1.prems" have "c \<in> set (show_nat (n div 10)) \<or> c = digit_char (n mod 10)"
      by (subst (asm) show_nat.simps) auto
    with False "1.IH" show ?thesis
      by (auto simp: digit_char_is_digit)
  qed
qed

lemma number_of_digits_snoc:
  "number_of_digits (ds @ [c]) = 10 * number_of_digits ds + digit_val c"
  by (simp add: number_of_digits_def)

lemma number_of_show_nat: "number_of_digits (show_nat n) = n"
proof (induction n rule: show_nat.induct)
  case (1 n)
  show ?case
  proof (cases "n < 10")
    case True
    then show ?thesis
      by (subst show_nat.simps) (simp add: number_of_digits_def digit_val_digit_char)
  next
    case False
    with "1.IH" have "number_of_digits (show_nat (n div 10)) = n div 10" by simp
    with False show ?thesis
      by (subst show_nat.simps) (simp add: number_of_digits_snoc digit_val_digit_char)
  qed
qed

lemma slash_not_digit: "\<not> is_digit CHR ''/''"
  by (simp add: is_digit_def)

lemma key_ts_digits:
  assumes "ds \<noteq> []" and "\<forall>c \<in> set ds. is_digit c"
  shows "key_ts (p @ CHR ''/'' # ds @ ''.json'') = Some (number_of_digits ds)"
proof -
  let ?k = "p @ CHR ''/'' # ds @ ''.json''"
  have suf: "suffix ''.json'' ?k"
    by (metis append.assoc append_Cons suffixI)
  have "take (length ?k - 5) ?k = p @ CHR ''/'' # ds"
    by simp
  then have stem: "rev (take (length ?k - 5) ?k) = rev ds @ CHR ''/'' # rev p"
    by simp
  have tw: "takeWhile is_digit (rev ds @ CHR ''/'' # rev p) = rev ds"
    using assms(2) by (subst takeWhile_append2) (auto simp: slash_not_digit)
  have dw: "dropWhile is_digit (rev ds @ CHR ''/'' # rev p) = CHR ''/'' # rev p"
    using assms(2) by (subst dropWhile_append2) (auto simp: slash_not_digit)
  show ?thesis
    unfolding key_ts_def Let_def stem tw dw using suf assms(1) by simp
qed

lemma paths_history_shape:
  "\<exists>p. paths_history v t = p @ CHR ''/'' # show_nat t @ ''.json''"
proof -
  obtain y m d where "utc_date t = (y, m, d)" by (cases "utc_date t")
  then have "paths_history v t =
      (''vehicles/'' @ js_str v @ ''/history/'' @ show_nat y @ ''/'' @ padStart2 (show_nat m)
          @ ''/'' @ padStart2 (show_nat d)) @ CHR ''/'' # show_nat t @ ''.json''"
    by (simp add: paths_history_def)
  then show ?thesis by blast
qed

lemma key_ts_history: "key_ts (paths_history v t) = Some t"
proof -
  obtain p where p: "paths_history v t = p @ CHR ''/'' # show_nat t @ ''.json''"
    using paths_history_shape by blast
  have "key_ts (p @ CHR ''/'' # show_nat t @ ''.json'') = Some (number_of_digits (show_nat t))"
    by (rule key_ts_digits) (simp_all add: show_nat_nonempty show_nat_digits)
  then show ?thesis
    by (simp only: p number_of_show_nat)
qed

lemma history_under_prefix: "prefix (history_prefix v) (paths_history (Str v) t)"
  by (simp add: history_prefix_def paths_history_def split: prod.splits)

lemma paths_history_inj: "paths_history v t = paths_history v' t' \<Longrightarrow> t = t'"
  using key_ts_history[of v t] key_ts_history[of v' t'] by simp

lemma sorted_sorted_keys: "sorted (map snd (sorted_keys ks))"
  by (simp add: sorted_keys_def)

lemma mset_sorted_keys: "mset (sorted_keys ks) = mset ks"
  by (simp add: sorted_keys_def)

lemma distinct_sorted_keys:
  "distinct (map snd ks) \<Longrightarrow> distinct (map snd (sorted_keys ks))"
proof -
  assume d: "distinct (map snd ks)"
  have "mset (map snd (sorted_keys ks)) = mset (map snd ks)"
    by (simp add: mset_sorted_keys)
  then show ?thesis using d by (metis mset_eq_imp_distinct_iff)
qed

lemma history_keys_strict:
  assumes "distinct (map snd (matching num b vid fq tq))"
  shows "sorted_wrt (<) (map snd (history_keys num b vid fq tq))"
proof -
  have "distinct (map snd (history_keys num b vid fq tq))"
    using assms by (simp add: history_keys_matching distinct_slice_last distinct_sorted_keys)
  then show ?thesis
    by (simp add: strict_sorted_iff history_keys_sorted)
qed

lemma history_keys_all:
  assumes "length (matching num b vid fq tq) \<le> 2000"
  shows "mset (history_keys num b vid fq tq) = mset (matching num b vid fq tq)"
  using assms by (simp add: history_keys_matching slice_last_all sorted_keys_def)

lemmas civil_defs = utc_date_def civil_from_days_def civil_from_doe_def civil_from_yoe_def
  civil_from_doy_def civil_from_mp_def civil_ymd_def

lemmas eval_paths = paths_history_def paths_current_def civil_defs Let_def show_nat.simps
  padStart2_def digit_char_def

lemmas eval_keys = key_ts_def is_digit_def number_of_digits_def digit_val_def suffix_to_prefix
  keys_under_def history_prefix_def

lemma two_devices_positions:
  "positions two_devices_bucket =
     [(''vehicles/v/current.json'',
        \<lparr>vehicleId = Str ''v'', lat = Some 4, lng = Some 6, speed = Some 40, ts = 5\<rparr>),
      (''vehicles/v/history/1970/01/01/5.json'',
        \<lparr>vehicleId = Str ''v'', lat = Some 4, lng = Some 6, speed = Some 40, ts = 5\<rparr>),
      (''vehicles/v/history/w/current.json'',
        \<lparr>vehicleId = Str ''v/history/w'', lat = Some 1, lng = Some 2, speed = Some 3, ts = 5\<rparr>),
      (''vehicles/v/history/w/history/1970/01/01/5.json'',
        \<lparr>vehicleId = Str ''v/history/w'', lat = Some 1, lng = Some 2, speed = Some 3, ts = 5\<rparr>)]"
  by (simp add: two_devices_bucket_def on_location_update_def putJSON_pos_def empty_bucket_def
      eval_paths)

lemma two_devices_matching:
  "matching num two_devices_bucket ''v'' None None =
     [(''vehicles/v/history/1970/01/01/5.json'', 5),
      (''vehicles/v/history/w/history/1970/01/01/5.json'', 5)]"
  by (simp add: matching_def two_devices_positions query_bound_def in_bounds_def eval_keys)

lemma two_devices_history_keys:
  "history_keys num two_devices_bucket ''v'' None None =
     [(''vehicles/v/history/1970/01/01/5.json'', 5),
      (''vehicles/v/history/w/history/1970/01/01/5.json'', 5)]"
  by (simp add: history_keys_matching two_devices_matching sorted_keys_def slice_last_def)

lemma one_vehicle_positions:
  "positions one_vehicle_bucket =
     [(''vehicles/v/current.json'',
        \<lparr>vehicleId = Str ''v'', lat = Some 1, lng = Some 2, speed = Some 3, ts = 9\<rparr>),
      (''vehicles/v/history/1970/01/01/5.json'',
        \<lparr>vehicleId = Str ''v'', lat = Some 4, lng = Some 6, speed = Some 40, ts = 5\<rparr>),
      (''vehicles/v/history/1970/01/01/9.json'',
        \<lparr>vehicleId = Str ''v'', lat = Some 1, lng = Some 2, speed = Some 3, ts = 9\<rparr>)]"
  by (simp add: one_vehicle_bucket_def on_location_update_def putJSON_pos_def empty_bucket_def
      eval_paths)

lemma one_vehicle_stored:
  "stored_records one_vehicle_bucket ''v'' =
     [(''vehicles/v/history/1970/01/01/5.json'', 5), (''vehicles/v/history/1970/01/01/9.json'', 9)]"
  by (simp add: stored_records_def one_vehicle_positions in_bounds_def eval_keys)

lemma sample_lower: "lower_param decimal_Number (Some ''3'') (Some 3)"
  by (simp add: lower_param_def decimal_Number_def is_digit_def number_of_digits_def digit_val_def)

lemma sample_upper: "upper_param decimal_Number (Some ''7'') (Some 7)"
  by (simp add: upper_param_def decimal_Number_def is_digit_def number_of_digits_def digit_val_def)


text \<open>
  C5 (as amended). Let each bound of a history query be absent or given by a query parameter
  that \<^verbatim>\<open>Number\<close> reads as that bound, an upper bound being different from 0. Then the route
  answers \<^verbatim>\<open>ok\<close> with the bodies of the keys it selected, in their order, and their count.
  Every selected key is a stored history record of the vehicle whose timestamp lies within
  the bounds; the selected keys are ascending by timestamp; when at most 2000 stored records
  lie within the bounds the selected keys are exactly those records, each once; and when no
  two of the records within the bounds carry the same timestamp the order is strictly
  ascending, without duplicate timestamps.
\<close>

theorem history_range:
  assumes "lower_param num fq T1" and "upper_param num tq T2"
  shows "history_route num b vid fq tq =
           HistoryOk (length (history_keys num b vid fq tq)) (bodies b (history_keys num b vid fq tq)) \<and>
         set (history_keys num b vid fq tq)
           \<subseteq> {kt \<in> set (stored_records b vid). between T1 T2 (snd kt)} \<and>
         sorted (map snd (history_keys num b vid fq tq)) \<and>
         (length (filter (\<lambda>kt. between T1 T2 (snd kt)) (stored_records b vid)) \<le> 2000 \<longrightarrow>
            mset (history_keys num b vid fq tq)
              = mset (filter (\<lambda>kt. between T1 T2 (snd kt)) (stored_records b vid))) \<and>
         (distinct (map snd (filter (\<lambda>kt. between T1 T2 (snd kt)) (stored_records b vid))) \<longrightarrow>
            sorted_wrt (<) (map snd (history_keys num b vid fq tq)))"
proof -
  have m: "matching num b vid fq tq = filter (\<lambda>kt. between T1 T2 (snd kt)) (stored_records b vid)"
    using assms by (rule matching_between)
  have sub: "set (history_keys num b vid fq tq)
           \<subseteq> {kt \<in> set (stored_records b vid). between T1 T2 (snd kt)}"
    using history_keys_stored[of _ num b vid fq tq] by (auto simp: m)
  show ?thesis
    using sub history_keys_strict[of num b vid fq tq] history_keys_all[of num b vid fq tq]
    by (simp add: history_route_ok history_keys_sorted m[symmetric])
qed

theorem history_range_witness:
  "lower_param decimal_Number (Some ''3'') (Some 3) \<and>
   upper_param decimal_Number (Some ''7'') (Some 7) \<and>
   stored_records one_vehicle_bucket ''v'' =
     [(''vehicles/v/history/1970/01/01/5.json'', 5), (''vehicles/v/history/1970/01/01/9.json'', 9)] \<and>
   mset (history_keys decimal_Number one_vehicle_bucket ''v'' (Some ''3'') (Some ''7''))
     = {#(''vehicles/v/history/1970/01/01/5.json'', 5)#} \<and>
   sorted_wrt (<) (map snd (history_keys decimal_Number one_vehicle_bucket ''v'' (Some ''3'') (Some ''7'')))"
  using history_range [OF sample_lower sample_upper, of one_vehicle_bucket "''v''"]
  by (simp add: sample_lower sample_upper one_vehicle_stored between_def)

text \<open>
  The claim as first stated fails: two stored records under the history prefix of one
  vehicle can carry the same timestamp, and the route returns both. Here two devices report
  in the same millisecond, for the vehicles \<^verbatim>\<open>v\<close> and \<^verbatim>\<open>v/history/w\<close>; the history of \<^verbatim>\<open>v\<close>
  holds both reports, timestamp 5 twice.
\<close>

theorem history_duplicate_ts_counterexample:
  "history_route decimal_Number two_devices_bucket ''v'' None None =
     HistoryOk 2
       [\<lparr>vehicleId = Str ''v'', lat = Some 4, lng = Some 6, speed = Some 40, ts = 5\<rparr>,
        \<lparr>vehicleId = Str ''v/history/w'', lat = Some 1, lng = Some 2, speed = Some 3, ts = 5\<rparr>] \<and>
   \<not> sorted_wrt (<) (map snd (history_keys decimal_Number two_devices_bucket ''v'' None None))"
  by (simp add: history_route_ok two_devices_history_keys bodies_def two_devices_positions)

lemma sorted_take_le_drop:
  assumes "sorted (map f xs)" and "x \<in> set (take n xs)" and "y \<in> set (drop n xs)"
  shows "f x \<le> f y"
proof -
  have "sorted (map f (take n xs) @ map f (drop n xs))"
    using assms(1) by (simp add: map_append[symmetric] del: map_append)
  then show ?thesis using assms(2,3) by (auto simp: sorted_append)
qed

lemma page_keys_length_all:
  "\<forall>k \<in> set ks. key_ts k \<noteq> None \<Longrightarrow> length (page_keys None None ks) = length ks"
  by (induction ks) (auto simp: in_bounds_def split: option.splits)

lemma sample_keys: "map fst (positions long_history) = map (paths_history (Str ''v'')) [0..<2001]"
  by (simp add: long_history_def sample_entry_def comp_def)

lemma sample_keys_distinct: "distinct (map (paths_history (Str ''v'')) [0..<2001])"
  by (simp add: distinct_map inj_on_def) (blast dest: paths_history_inj)

lemma long_history_keys_under:
  "length (keys_under long_history (history_prefix ''v'')) = 2001 \<and>
   (\<forall>k \<in> set (keys_under long_history (history_prefix ''v'')). key_ts k \<noteq> None)"
proof -
  have f: "filter (prefix (history_prefix ''v'')) (map (paths_history (Str ''v'')) [0..<2001])
             = map (paths_history (Str ''v'')) [0..<2001]"
    by (simp add: filter_id_conv history_under_prefix)
  have "remdups (map (paths_history (Str ''v'')) [0..<2001]) = map (paths_history (Str ''v'')) [0..<2001]"
    using sample_keys_distinct by (rule distinct_remdups_id)
  then have ku: "keys_under long_history (history_prefix ''v'')
             = sort (map (paths_history (Str ''v'')) [0..<2001])"
    by (simp only: keys_under_def sample_keys f)
  show ?thesis
    by (auto simp: ku key_ts_history)
qed

lemma long_history_matching:
  "length (matching num long_history ''v'' None None) = 2001"
  using long_history_keys_under
  by (simp add: matching_def query_bound_def page_keys_length_all)


text \<open>
  C6. When more than 2000 stored records pass the bounds of a history query, the route
  answers with count 2000 and the bodies of 2000 keys: the last 2000 of the matching keys
  sorted ascending by timestamp, themselves ascending. The keys left out and the keys
  returned make up the matching keys, and no key left out has a larger timestamp than a key
  returned.
\<close>

theorem history_cap:
  assumes "2000 < length (matching num b vid fq tq)"
  shows "history_route num b vid fq tq = HistoryOk 2000 (bodies b (history_keys num b vid fq tq)) \<and>
         length (history_keys num b vid fq tq) = 2000 \<and>
         history_keys num b vid fq tq =
           drop (length (matching num b vid fq tq) - 2000) (sorted_keys (matching num b vid fq tq)) \<and>
         sorted (map snd (history_keys num b vid fq tq)) \<and>
         mset (take (length (matching num b vid fq tq) - 2000) (sorted_keys (matching num b vid fq tq)))
           + mset (history_keys num b vid fq tq) = mset (matching num b vid fq tq) \<and>
         (\<forall>x \<in> set (take (length (matching num b vid fq tq) - 2000)
                       (sorted_keys (matching num b vid fq tq))).
            \<forall>y \<in> set (history_keys num b vid fq tq). snd x \<le> snd y)"
proof -
  let ?m = "matching num b vid fq tq"
  let ?n = "length ?m - 2000"
  have hk: "history_keys num b vid fq tq = drop ?n (sorted_keys ?m)"
    by (simp add: history_keys_matching slice_last_def sorted_keys_def)
  have len: "length (history_keys num b vid fq tq) = 2000"
    using assms by (simp add: hk sorted_keys_def)
  have "mset (take ?n (sorted_keys ?m)) + mset (drop ?n (sorted_keys ?m)) = mset (sorted_keys ?m)"
    by (metis append_take_drop_id mset_append)
  then have ms: "mset (take ?n (sorted_keys ?m)) + mset (history_keys num b vid fq tq) = mset ?m"
    by (simp add: hk mset_sorted_keys)
  have hi: "\<forall>x \<in> set (take ?n (sorted_keys ?m)). \<forall>y \<in> set (history_keys num b vid fq tq). snd x \<le> snd y"
    using sorted_take_le_drop[OF sorted_sorted_keys] by (auto simp: hk)
  have srt: "sorted (map snd (history_keys num b vid fq tq))"
    by (rule history_keys_sorted)
  have rt: "history_route num b vid fq tq = HistoryOk 2000 (bodies b (history_keys num b vid fq tq))"
    by (simp only: history_route_ok len)
  from rt len hk srt ms hi show ?thesis by (intro conjI)
qed

theorem history_cap_witness:
  "2000 < length (matching decimal_Number long_history ''v'' None None) \<and>
   history_route decimal_Number long_history ''v'' None None =
     HistoryOk 2000 (bodies long_history (history_keys decimal_Number long_history ''v'' None None)) \<and>
   length (history_keys decimal_Number long_history ''v'' None None) = 2000"
proof -
  have h: "2000 < length (matching decimal_Number long_history ''v'' None None)"
    by (simp add: long_history_matching)
  from history_cap [OF h] h show ?thesis by blast
qed

section \<open>Properties of the location fan-out\<close>

lemma acceptedViewers_putJSON_pos [simp]:
  "acceptedViewers (putJSON_pos k r b) v = acceptedViewers b v"
  by (simp add: acceptedViewers_def getJSON_perm_def putJSON_pos_def)

lemma on_location_update_device:
  "socket_role sd = RoleDevice \<Longrightarrow>
   on_location_update sd now (Some d) b =
     \<lparr>reply = AckOk,
      emitted = map (\<lambda>e. (user_room (json_str e), LocationLive (report_of now d)))
                  (acceptedViewers b (upd_vehicleId d)),
      store = putJSON_pos (paths_history (upd_vehicleId d) now) (report_of now d)
                (putJSON_pos (paths_current (upd_vehicleId d)) (report_of now d) b)\<rparr>"
  by (simp add: on_location_update_def Let_def report_of_def acceptedViewers_def
      getJSON_perm_def putJSON_pos_def)

lemma user_room_inj: "user_room a = user_room b \<longleftrightarrow> a = b"
  by (simp add: user_room_def)

lemma json_str_JStr: "JNull \<notin> set acc \<Longrightarrow> e \<in> set acc \<Longrightarrow> json_str e = u \<Longrightarrow> JStr u \<in> set acc"
  by (cases e) auto

lemma fanout_every:
  "JStr u \<in> set acc \<Longrightarrow>
   (user_room u, ev) \<in> set (map (\<lambda>e. (user_room (json_str e), ev)) acc)"
proof -
  assume "JStr u \<in> set acc"
  then have "(user_room (json_str (JStr u)), ev) \<in> (\<lambda>e. (user_room (json_str e), ev)) ` set acc"
    by (rule imageI)
  then show ?thesis by simp
qed

lemma fanout_none:
  assumes "JNull \<notin> set acc" and "JStr u \<notin> set acc"
  shows "user_room u \<notin> fst ` set (map (\<lambda>e. (user_room (json_str e), ev)) acc)"
proof
  assume "user_room u \<in> fst ` set (map (\<lambda>e. (user_room (json_str e), ev)) acc)"
  then obtain e where e: "e \<in> set acc" and r: "user_room u = user_room (json_str e)"
    by (auto simp: image_iff)
  from r have "json_str e = u" by (simp add: user_room_def)
  with assms(1) e have "JStr u \<in> set acc" by (rule json_str_JStr)
  with assms(2) show False ..
qed

text \<open>
  What the fan-out does. For a \<^verbatim>\<open>location:update\<close> with a payload, received on a device
  connection, the handler acknowledges ok, reads the accepted set of the vehicle named in
  the payload (the position writes before the read leave it as it was), and emits
  \<^verbatim>\<open>location:live\<close> with the full position report once to the room of each entry of that
  set, in order, and to no other room. So the room of every accepted user receives the
  report; and, as long as the accepted set holds user identities only (no \<^verbatim>\<open>null\<close> entry),
  the room of a user who is not in the set receives nothing.
\<close>

theorem location_live_fanout:
  assumes "socket_role sd = RoleDevice"
  shows "reply (on_location_update sd now (Some d) b) = AckOk \<and>
         acceptedViewers (store (on_location_update sd now (Some d) b)) (upd_vehicleId d)
           = acceptedViewers b (upd_vehicleId d) \<and>
         emitted (on_location_update sd now (Some d) b)
           = map (\<lambda>e. (user_room (json_str e), LocationLive (report_of now d)))
               (acceptedViewers b (upd_vehicleId d)) \<and>
         (\<forall>u. JStr u \<in> set (acceptedViewers b (upd_vehicleId d)) \<longrightarrow>
              (user_room u, LocationLive (report_of now d))
                \<in> set (emitted (on_location_update sd now (Some d) b))) \<and>
         (JNull \<notin> set (acceptedViewers b (upd_vehicleId d)) \<longrightarrow>
            (\<forall>u. JStr u \<notin> set (acceptedViewers b (upd_vehicleId d)) \<longrightarrow>
                 user_room u \<notin> fst ` set (emitted (on_location_update sd now (Some d) b))))"
proof -
  let ?acc = "acceptedViewers b (upd_vehicleId d)"
  let ?out = "on_location_update sd now (Some d) b"
  have eq: "?out =
     \<lparr>reply = AckOk,
      emitted = map (\<lambda>e. (user_room (json_str e), LocationLive (report_of now d))) ?acc,
      store = putJSON_pos (paths_history (upd_vehicleId d) now) (report_of now d)
                (putJSON_pos (paths_current (upd_vehicleId d)) (report_of now d) b)\<rparr>"
    using assms by (rule on_location_update_device)
  have rep: "reply ?out = AckOk"
    by (simp only: eq outcome.simps)
  have st: "acceptedViewers (store ?out) (upd_vehicleId d) = ?acc"
    by (simp only: eq outcome.simps acceptedViewers_putJSON_pos)
  have out: "emitted ?out = map (\<lambda>e. (user_room (json_str e), LocationLive (report_of now d))) ?acc"
    by (simp only: eq outcome.simps)
  have every: "\<forall>u. JStr u \<in> set ?acc \<longrightarrow>
      (user_room u, LocationLive (report_of now d)) \<in> set (emitted ?out)"
    unfolding out by (intro allI impI fanout_every)
  have none: "JNull \<notin> set ?acc \<longrightarrow> (\<forall>u. JStr u \<notin> set ?acc \<longrightarrow>
      user_room u \<notin> fst ` set (emitted ?out))"
    unfolding out by (intro allI impI fanout_none)
  from rep st out every none show ?thesis by (intro conjI)
qed

lemma accepted_after_grant: "acceptedViewers (grant ''V1'' ''U1'' empty_bucket) (Str ''V1'') = [JStr ''U1'']"
  by (simp add: acceptedViewers_def grant_def updatePermission_def Let_def getJSON_perm_def
      putJSON_perm_def empty_bucket_def empty_doc_def push_if_absent_def paths_vehPerm_def
      paths_userPerm_def)

theorem location_live_fanout_witness:
  "socket_role (DeviceSock ''V1'') = RoleDevice \<and>
   emitted (on_location_update (DeviceSock ''V1'') 1730419200123
              (Some \<lparr>upd_vehicleId = Str ''V1'', upd_lat = Some (129 / 10),
                     upd_lng = Some (776 / 10), upd_speed = Some 40\<rparr>)
              (grant ''V1'' ''U1'' empty_bucket))
     = [(''user:U1'', LocationLive \<lparr>vehicleId = Str ''V1'', lat = Some (129 / 10),
           lng = Some (776 / 10), speed = Some 40, ts = 1730419200123\<rparr>)] \<and>
   JNull \<notin> set (acceptedViewers (grant ''V1'' ''U1'' empty_bucket) (Str ''V1'')) \<and>
   JStr ''U2'' \<notin> set (acceptedViewers (grant ''V1'' ''U1'' empty_bucket) (Str ''V1''))"
  using location_live_fanout [of "DeviceSock ''V1''" 1730419200123
      "\<lparr>upd_vehicleId = Str ''V1'', upd_lat = Some (129 / 10), upd_lng = Some (776 / 10),
        upd_speed = Some 40\<rparr>" "grant ''V1'' ''U1'' empty_bucket"]
  by (simp add: accepted_after_grant report_of_def user_room_def)

lemma grant_without_userId_perms:
  "perms (store (on_permission_granted (DeviceSock ''V1'')
            (Some \<lparr>grant_userId = Undefined, grant_vehicleId = Str ''V1''\<rparr>) empty_bucket)) =
     [(''permissions/vehicle/V1.json'', \<lparr>pending = [], accepted = [JNull]\<rparr>),
      (''permissions/user/undefined.json'', \<lparr>pending = [], accepted = [JStr ''V1'']\<rparr>)]"
  by (simp add: on_permission_granted_def updatePermission_def Let_def getJSON_perm_def
      putJSON_perm_def empty_bucket_def empty_doc_def push_if_absent_def paths_vehPerm_def
      paths_userPerm_def)

lemma grant_without_userId_viewers:
  "acceptedViewers (store (on_permission_granted (DeviceSock ''V1'')
            (Some \<lparr>grant_userId = Undefined, grant_vehicleId = Str ''V1''\<rparr>) empty_bucket))
     (Str ''V1'') = [JNull]"
  by (simp add: acceptedViewers_def getJSON_perm_def grant_without_userId_perms paths_vehPerm_def)

text \<open>
  C1 fails on the code. A device sends \<^verbatim>\<open>permission:granted\<close> for vehicle \<^verbatim>\<open>V1\<close> without
  \<^verbatim>\<open>userId\<close>; the handler acknowledges ok and the accepted array of \<^verbatim>\<open>V1\<close> now holds
  \<^verbatim>\<open>null\<close>. The user whose identity is the string \<^verbatim>\<open>null\<close> is not in that accepted set and
  its connection sits in the room \<^verbatim>\<open>user:null\<close>. The next \<^verbatim>\<open>location:update\<close> for \<^verbatim>\<open>V1\<close>
  emits \<^verbatim>\<open>location:live\<close> with the full report to exactly that room.
\<close>

theorem null_entry_reaches_unaccepted_user:
  "reply (on_permission_granted (DeviceSock ''V1'')
            (Some \<lparr>grant_userId = Undefined, grant_vehicleId = Str ''V1''\<rparr>) empty_bucket) = AckOk \<and>
   JStr ''null'' \<notin> set (acceptedViewers (store (on_permission_granted (DeviceSock ''V1'')
            (Some \<lparr>grant_userId = Undefined, grant_vehicleId = Str ''V1''\<rparr>) empty_bucket))
          (Str ''V1'')) \<and>
   ''s2'' \<in> rooms (on_connection (UserSock ''null'') ''s2'' empty_registry) ''user:null'' \<and>
   emitted (on_location_update (DeviceSock ''V1'') 5
              (Some \<lparr>upd_vehicleId = Str ''V1'', upd_lat = Some (129 / 10),
                     upd_lng = Some (776 / 10), upd_speed = Some 40\<rparr>)
              (store (on_permission_granted (DeviceSock ''V1'')
                 (Some \<lparr>grant_userId = Undefined, grant_vehicleId = Str ''V1''\<rparr>) empty_bucket)))
     = [(''user:null'', LocationLive \<lparr>vehicleId = Str ''V1'', lat = Some (129 / 10),
           lng = Some (776 / 10), speed = Some 40, ts = 5\<rparr>)]"
proof -
  let ?b = "store (on_permission_granted (DeviceSock ''V1'')
               (Some \<lparr>grant_userId = Undefined, grant_vehicleId = Str ''V1''\<rparr>) empty_bucket)"
  have r: "reply (on_permission_granted (DeviceSock ''V1'')
            (Some \<lparr>grant_userId = Undefined, grant_vehicleId = Str ''V1''\<rparr>) empty_bucket) = AckOk"
    by (simp add: on_permission_granted_def)
  have n: "JStr ''null'' \<notin> set (acceptedViewers ?b (Str ''V1''))"
    by (simp only: grant_without_userId_viewers) simp
  have c: "''s2'' \<in> rooms (on_connection (UserSock ''null'') ''s2'' empty_registry) ''user:null''"
    by (simp add: join_room_def empty_registry_def)
  have e: "emitted (on_location_update (DeviceSock ''V1'') 5
              (Some \<lparr>upd_vehicleId = Str ''V1'', upd_lat = Some (129 / 10),
                     upd_lng = Some (776 / 10), upd_speed = Some 40\<rparr>) ?b)
     = [(''user:null'', LocationLive \<lparr>vehicleId = Str ''V1'', lat = Some (129 / 10),
           lng = Some (776 / 10), speed = Some 40, ts = 5\<rparr>)]"
    by (subst on_location_update_device)
       (simp_all add: grant_without_userId_viewers report_of_def user_room_def
          del: on_permission_granted_def)
  from r n c e show ?thesis by (intro conjI)
qed

section \<open>Properties of the handshake\<close>

lemma auth_middleware_payload:
  "auth_middleware jv pb a q =
     (case credential_payload jv pb a q of
        None \<Rightarrow> Inl Unauthorized
      | Some p \<Rightarrow>
          if \<not> truthy (role p) \<or> \<not> truthy (sub p) then Inl Unauthorized
          else if role p = Str ''user'' then Inr (UserSock (js_str (sub p)))
          else Inr (DeviceSock (js_str (sub p))))"
  by (simp add: auth_middleware_def credential_payload_def Let_def)

lemma auth_accepts_iff:
  "(\<exists>sd. auth_middleware jv pb a q = Inr sd) \<longleftrightarrow>
   (\<exists>p. credential_payload jv pb a q = Some p \<and> truthy (role p) \<and> truthy (sub p))"
  by (auto simp: auth_middleware_payload split: option.splits)

lemma auth_rejects_unauthorized:
  "auth_middleware jv pb a q = Inl e \<Longrightarrow> e = Unauthorized"
  by (auto simp: auth_middleware_payload split: option.splits if_splits)

lemma rejected_creates_no_state:
  "auth_middleware jv pb a q = Inl e \<Longrightarrow> connect jv pb a q sid reg = (Inl Unauthorized, reg)"
  using auth_rejects_unauthorized[of jv pb a q e] by (simp add: connect_def)

lemma split_sample:
  "split_dot ''eyJhbGciOiJIUzI1NiIsInR5cCI6IkpXVCJ9.eyJzdWIiOiJ4Iiwicm9sZSI6ImFkbWluIn0=.fake-signature''
     = [''eyJhbGciOiJIUzI1NiIsInR5cCI6IkpXVCJ9'', ''eyJzdWIiOiJ4Iiwicm9sZSI6ImFkbWluIn0='', ''fake-signature'']"
  by simp

text \<open>
  C7 fails on the code. A token whose payload names the subject \<^verbatim>\<open>x\<close> and the role
  \<^verbatim>\<open>admin\<close>, which is neither \<^verbatim>\<open>user\<close> nor \<^verbatim>\<open>device\<close>, passes the handshake: the connection
  is bound as device \<^verbatim>\<open>x\<close> and its socket joins the room \<^verbatim>\<open>vehicle:x\<close>.
\<close>

theorem unknown_role_bound_as_device:
  "fst (connect sample_jwt_verify sample_parse_b64
          (Some ''eyJhbGciOiJIUzI1NiIsInR5cCI6IkpXVCJ9.eyJzdWIiOiJ4Iiwicm9sZSI6ImFkbWluIn0=.fake-signature'')
          None ''s1'' empty_registry) = Inr (DeviceSock ''x'') \<and>
   ''s1'' \<in> rooms (snd (connect sample_jwt_verify sample_parse_b64
          (Some ''eyJhbGciOiJIUzI1NiIsInR5cCI6IkpXVCJ9.eyJzdWIiOiJ4Iiwicm9sZSI6ImFkbWluIn0=.fake-signature'')
          None ''s1'' empty_registry)) ''vehicle:x''"
  by (simp add: connect_def auth_middleware_def or_token_def verifyJwt_def decodeFakeJwt_def
      split_sample sample_jwt_verify_def sample_parse_b64_def join_room_def empty_registry_def)

section \<open>Payloads with a missing field\<close>

lemma location_request_requires_vehicleId:
  "\<not> truthy (req_vehicleId d) \<Longrightarrow>
   on_location_request (UserSock u) now (Some d) b =
     \<lparr>reply = AckError VehicleIdRequired, emitted = [], store = b\<rparr>"
  by (simp add: on_location_request_def)

text \<open>
  C8 fails on the code. A \<^verbatim>\<open>location:update\<close> without \<^verbatim>\<open>vehicleId\<close>, sent on a device
  connection, is acknowledged with \<^verbatim>\<open>{ok: true}\<close>, and two objects are written under the
  vehicle name \<^verbatim>\<open>undefined\<close>.
\<close>

theorem location_update_without_vehicleId:
  "reply (on_location_update (DeviceSock ''V1'') 5
            (Some \<lparr>upd_vehicleId = Undefined, upd_lat = Some (129 / 10),
                   upd_lng = Some (776 / 10), upd_speed = Some 40\<rparr>) empty_bucket) = AckOk \<and>
   positions (store (on_location_update (DeviceSock ''V1'') 5
            (Some \<lparr>upd_vehicleId = Undefined, upd_lat = Some (129 / 10),
                   upd_lng = Some (776 / 10), upd_speed = Some 40\<rparr>) empty_bucket)) =
     [(''vehicles/undefined/current.json'',
         \<lparr>vehicleId = Undefined, lat = Some (129 / 10), lng = Some (776 / 10),
          speed = Some 40, ts = 5\<rparr>),
      (''vehicles/undefined/history/1970/01/01/5.json'',
         \<lparr>vehicleId = Undefined, lat = Some (129 / 10), lng = Some (776 / 10),
          speed = Some 40, ts = 5\<rparr>)]"
  by (simp add: on_location_update_def putJSON_pos_def empty_bucket_def eval_paths)

section \<open>The bound identity of a device\<close>

lemma key_ts_current: "key_ts (paths_current v) = None"
proof -
  have "take (length (paths_current v) - 5) (paths_current v) = ''vehicles/'' @ js_str v @ ''/current''"
    by (simp add: paths_current_def)
  then show ?thesis
    by (simp add: key_ts_def Let_def is_digit_def)
qed

lemma current_history_distinct: "paths_current v \<noteq> paths_history v' t"
  using key_ts_current[of v] key_ts_history[of v' t] by auto

lemma map_of_putJSON_pos:
  "map_of (positions (putJSON_pos k r b)) k' = (if k' = k then Some r else map_of (positions b) k')"
  by (simp add: putJSON_pos_def update_conv')

text \<open>
  C10. Two device connections bound to any two vehicle identities get the same outcome
  (acknowledgement, emissions and bucket) from \<^verbatim>\<open>location:update\<close> and from
  \<^verbatim>\<open>permission:granted\<close> on the same payload. Whatever vehicle a device is bound to, its
  \<^verbatim>\<open>location:update\<close> puts the report under the current key and under the history key of
  the vehicle named in the payload, and its \<^verbatim>\<open>permission:granted\<close> is acknowledged ok and
  makes the named user accepted in the document of the named vehicle.
\<close>

theorem device_identity_irrelevant:
  "on_location_update (DeviceSock v1) now data b = on_location_update (DeviceSock v2) now data b \<and>
   on_permission_granted (DeviceSock v1) pdata b = on_permission_granted (DeviceSock v2) pdata b \<and>
   map_of (positions (store (on_location_update (DeviceSock v1) now (Some d) b)))
     (paths_current (upd_vehicleId d)) = Some (report_of now d) \<and>
   map_of (positions (store (on_location_update (DeviceSock v1) now (Some d) b)))
     (paths_history (upd_vehicleId d) now) = Some (report_of now d) \<and>
   reply (on_permission_granted (DeviceSock v1)
            (Some \<lparr>grant_userId = Str u, grant_vehicleId = Str v2\<rparr>) b) = AckOk \<and>
   JStr u \<in> set (accepted (vehDoc (store (on_permission_granted (DeviceSock v1)
            (Some \<lparr>grant_userId = Str u, grant_vehicleId = Str v2\<rparr>) b)) v2))"
proof -
  have a: "on_location_update (DeviceSock v1) now data b = on_location_update (DeviceSock v2) now data b"
    by (simp add: on_location_update_def)
  have g: "on_permission_granted (DeviceSock v1) pdata b = on_permission_granted (DeviceSock v2) pdata b"
    by (simp add: on_permission_granted_def)
  have c: "map_of (positions (store (on_location_update (DeviceSock v1) now (Some d) b)))
     (paths_current (upd_vehicleId d)) = Some (report_of now d)"
    by (simp add: on_location_update_device map_of_putJSON_pos current_history_distinct)
  have h: "map_of (positions (store (on_location_update (DeviceSock v1) now (Some d) b)))
     (paths_history (upd_vehicleId d) now) = Some (report_of now d)"
    by (simp add: on_location_update_device map_of_putJSON_pos)
  have r: "reply (on_permission_granted (DeviceSock v1)
            (Some \<lparr>grant_userId = Str u, grant_vehicleId = Str v2\<rparr>) b) = AckOk"
    by (simp add: on_permission_granted_def)
  have m: "JStr u \<in> set (accepted (vehDoc (store (on_permission_granted (DeviceSock v1)
            (Some \<lparr>grant_userId = Str u, grant_vehicleId = Str v2\<rparr>) b)) v2))"
    by (simp add: on_permission_granted_def vehDoc_updatePermission accepted_after_status)
  from a g c h r m show ?thesis by (intro conjI)
qed

end
